theory Spec2Isabelle
  imports Complex_Main "HOL-Library.AList"
begin

section \<open>Python values and errors\<close>

text \<open>
  The loader of \<^verbatim>\<open>Baseline/data/transition.py\<close> works on data read by
  \<^verbatim>\<open>json.load\<close>. Every exception the code can raise is a value of \<open>error\<close>,
  and a function that can raise returns \<open>error + 'a\<close> with \<open>Inl\<close> for the exception.
\<close>

datatype error = KeyError | TypeError | ValueError

definition bind :: "error + 'a \<Rightarrow> ('a \<Rightarrow> error + 'b) \<Rightarrow> error + 'b" where
  "bind m f = (case m of Inl e \<Rightarrow> Inl e | Inr x \<Rightarrow> f x)"

text \<open>
  Actions and option items are opaque to the loader except for one key each, so they are
  kept as JSON values. Floating-point numbers do not occur in them and are left out of
  the datatype. A JSON object is an association list in insertion order.
\<close>

datatype json =
    JNull
  | JBool bool
  | JInt int
  | JStr string
  | JList "json list"
  | JObj "(string \<times> json) list"

text \<open>\<^verbatim>\<open>x[k]\<close> for a string key \<open>k\<close>: only a dict can be subscripted by a string.\<close>

fun py_getitem :: "json \<Rightarrow> string \<Rightarrow> error + json" where
  "py_getitem (JObj d) k = (case map_of d k of None \<Rightarrow> Inl KeyError | Some v \<Rightarrow> Inr v)"
| "py_getitem _ k = Inl TypeError"

subsection \<open>\<^verbatim>\<open>int(...)\<close> and \<^verbatim>\<open>str(...)\<close>\<close>

text \<open>
  \<^verbatim>\<open>int(s)\<close> on a string: surrounding whitespace is dropped, one sign is allowed, then
  decimal digits follow, single underscores allowed between two digits. Anything else
  raises ValueError. Strings are ASCII here; the interpreter's limit on the number of
  digits is not modelled.
\<close>

definition is_space :: "char \<Rightarrow> bool" where
  "is_space c \<longleftrightarrow> (of_char c :: nat) \<in> {9, 10, 11, 12, 13, 28, 29, 30, 31, 32}"

definition is_digit :: "char \<Rightarrow> bool" where
  "is_digit c \<longleftrightarrow> 48 \<le> (of_char c :: nat) \<and> (of_char c :: nat) \<le> 57"

definition digit_val :: "char \<Rightarrow> nat" where
  "digit_val c = of_char c - 48"

fun parse_digits :: "nat \<Rightarrow> string \<Rightarrow> nat option" where
  "parse_digits acc [] = Some acc"
| "parse_digits acc [c] = (if is_digit c then Some (10 * acc + digit_val c) else None)"
| "parse_digits acc (c # d # ds) =
     (if is_digit c then parse_digits (10 * acc + digit_val c) (d # ds)
      else if c = CHR ''_'' \<and> is_digit d then parse_digits (10 * acc + digit_val d) ds
      else None)"

definition py_strip :: "string \<Rightarrow> string" where
  "py_strip s = rev (dropWhile is_space (rev (dropWhile is_space s)))"

definition parse_unsigned :: "string \<Rightarrow> nat option" where
  "parse_unsigned s =
     (case s of [] \<Rightarrow> None
      | c # cs \<Rightarrow> if is_digit c then parse_digits (digit_val c) cs else None)"

definition int_of_string :: "string \<Rightarrow> int option" where
  "int_of_string s =
     (case py_strip s of
        [] \<Rightarrow> None
      | c # cs \<Rightarrow>
          if c = CHR ''-'' then map_option (\<lambda>n. - int n) (parse_unsigned cs)
          else if c = CHR ''+'' then map_option int (parse_unsigned cs)
          else map_option int (parse_unsigned (c # cs)))"

definition int_str :: "string \<Rightarrow> error + int" where
  "int_str s = (case int_of_string s of None \<Rightarrow> Inl ValueError | Some n \<Rightarrow> Inr n)"

fun py_int :: "json \<Rightarrow> error + int" where
  "py_int (JInt n) = Inr n"
| "py_int (JBool b) = Inr (if b then 1 else 0)"
| "py_int (JStr s) = int_str s"
| "py_int _ = Inl TypeError"

text \<open>\<^verbatim>\<open>str(n)\<close> of an integer: its decimal numeral.\<close>

fun str_nat :: "nat \<Rightarrow> string" where
  "str_nat n =
     (if n < 10 then [char_of (48 + n)]
      else str_nat (n div 10) @ [char_of (48 + n mod 10)])"

declare str_nat.simps [simp del]

definition str_int :: "int \<Rightarrow> string" where
  "str_int i = (if i < 0 then CHR ''-'' # str_nat (nat (- i)) else str_nat (nat i))"

section \<open>The constants of the \<^verbatim>\<open>definition\<close> package\<close>

text \<open>
  \<^verbatim>\<open>GAME_TAG\<close>, \<^verbatim>\<open>OPERABLE_GAME_TAG\<close>, \<^verbatim>\<open>TAG_ZONE\<close> and \<^verbatim>\<open>OPTION_TYPE\<close> are imported
  from modules that are not part of the file. Their members are integer constants, and
  \<^verbatim>\<open>tag_map\<close> is a lookup table from tag numbers to names. They are parameters of every
  function below: \<open>tag_map d n\<close> is \<^verbatim>\<open>str(self.tag_map[n])\<close>, with \<open>None\<close> where the
  lookup raises.
\<close>

record definitions =
  GAME_TAG_ENTITY_ID :: int
  GAME_TAG_HEALTH :: int
  GAME_TAG_ATK :: int
  GAME_TAG_COST :: int
  GAME_TAG_ARMOR :: int
  GAME_TAG_ZONE :: int
  GAME_TAG_CONTROLLER :: int
  GAME_TAG_CLASS :: int
  GAME_TAG_CARDRACE :: int
  GAME_TAG_CARDTYPE :: int
  GAME_TAG_SECRET :: int
  GAME_TAG_ZONE_POSITION :: int
  TAG_READY :: int
  TAG_ZONE_SECRET :: int
  TAG_ZONE_HAND :: int
  TAG_ZONE_PLAY :: int
  OPTION_TYPE_END_TURN :: int
  tag_map :: "int \<Rightarrow> string option"

definition zone :: "definitions \<Rightarrow> int list" where
  "zone d = [TAG_ZONE_SECRET d, TAG_ZONE_HAND d, TAG_ZONE_PLAY d]"

definition scope :: "definitions \<Rightarrow> int list" where
  "scope d =
     [GAME_TAG_ENTITY_ID d, GAME_TAG_HEALTH d, GAME_TAG_ATK d, GAME_TAG_COST d,
      GAME_TAG_ARMOR d, GAME_TAG_ZONE d, GAME_TAG_CONTROLLER d, GAME_TAG_CLASS d,
      GAME_TAG_CARDRACE d, GAME_TAG_CARDTYPE d, GAME_TAG_SECRET d,
      GAME_TAG_ZONE_POSITION d]"

section \<open>Entities, states and trajectories\<close>

text \<open>
  A tag dictionary maps tag numbers, written as strings, to string values. An entity is
  a dictionary with the keys \<^verbatim>\<open>card_name\<close>, \<^verbatim>\<open>card_description\<close>, \<^verbatim>\<open>card_id\<close>
  and \<^verbatim>\<open>tags\<close>, to which \<^verbatim>\<open>preprocess_state\<close> adds \<^verbatim>\<open>named_tags\<close>. Each field is
  \<open>None\<close> when the key is absent; a present text field holds a string or \<^verbatim>\<open>None\<close>.
\<close>

type_synonym tags = "(string \<times> string) list"

datatype pystr = PyNone | PyStr string

record entity =
  card_name :: "pystr option"
  card_description :: "pystr option"
  card_id :: "pystr option"
  tags :: "tags option"
  named_tags :: "tags option"

type_synonym state = "entity list"

type_synonym option_list = "json list"

record trajectory =
  result :: real
  seq_state :: "state list"
  seq_action :: "json list"
  seq_option :: "option_list list"

record transition =
  t_state :: state
  t_action :: json
  t_next_state :: state
  t_reward :: real
  t_option :: option_list
  t_next_option :: option_list

section \<open>\<^verbatim>\<open>collate_sequence_data\<close>\<close>

text \<open>
  The loop runs over the zip of \<^verbatim>\<open>state[:-1]\<close>, \<^verbatim>\<open>action[:-1]\<close>, \<^verbatim>\<open>state[1:]\<close>,
  \<^verbatim>\<open>option[:-1]\<close> and \<^verbatim>\<open>option[1:]\<close>; its state is the decay factor and the list
  built so far. The reward is a float in the source and an exact real here.
\<close>

type_synonym row = "state \<times> json \<times> state \<times> option_list \<times> option_list"

definition rows :: "trajectory \<Rightarrow> row list" where
  "rows data =
     zip (butlast (seq_state data))
       (zip (butlast (seq_action data))
         (zip (tl (seq_state data))
           (zip (butlast (seq_option data)) (tl (seq_option data)))))"

definition action_type :: "json \<Rightarrow> error + int" where
  "action_type action = bind (py_getitem action ''type'') py_int"

fun collate_loop ::
  "definitions \<Rightarrow> real \<Rightarrow> real \<Rightarrow> transition list \<Rightarrow> row list \<Rightarrow> error + transition list"
where
  "collate_loop d res decay_factor sequence_data [] = Inr sequence_data"
| "collate_loop d res decay_factor sequence_data
     ((state, action, next_state, option, next_option) # rest) =
     (let reward = res * decay_factor;
          decay_factor' = decay_factor * decay_factor
      in bind (action_type action) (\<lambda>ty.
           if ty = OPTION_TYPE_END_TURN d
           then collate_loop d res decay_factor' sequence_data rest
           else collate_loop d res decay_factor'
                  (sequence_data @
                    [\<lparr>t_state = state, t_action = action, t_next_state = next_state,
                      t_reward = reward, t_option = option,
                      t_next_option = next_option\<rparr>]) rest))"

definition collate_sequence_data :: "definitions \<Rightarrow> trajectory \<Rightarrow> error + transition list" where
  "collate_sequence_data d data = collate_loop d (result data) (9 / 10) [] (rows data)"

text \<open>
  The names below describe the loop from outside: \<open>decay_at i\<close> is the value of
  \<^verbatim>\<open>decay_factor\<close> when the \<open>i\<close>-th iteration (0-based) computes its reward, a pair
  is retained unless its action is END_TURN, and \<open>transition_at data i\<close> is the tuple
  built from the \<open>i\<close>-th consecutive pair.
\<close>

fun decay_at :: "nat \<Rightarrow> real" where
  "decay_at 0 = 9 / 10"
| "decay_at (Suc i) = decay_at i * decay_at i"

definition retained :: "definitions \<Rightarrow> json \<Rightarrow> bool" where
  "retained d action \<longleftrightarrow> action_type action \<noteq> Inr (OPTION_TYPE_END_TURN d)"

definition mk_transition :: "real \<Rightarrow> nat \<Rightarrow> row \<Rightarrow> transition" where
  "mk_transition res i r =
     (case r of (state, action, next_state, option, next_option) \<Rightarrow>
        \<lparr>t_state = state, t_action = action, t_next_state = next_state,
         t_reward = res * decay_at i, t_option = option, t_next_option = next_option\<rparr>)"

fun collated :: "definitions \<Rightarrow> real \<Rightarrow> nat \<Rightarrow> row list \<Rightarrow> transition list" where
  "collated d res k [] = []"
| "collated d res k (r # rs) =
     (if retained d (fst (snd r)) then [mk_transition res k r] else []) @
     collated d res (Suc k) rs"

definition transition_at :: "trajectory \<Rightarrow> nat \<Rightarrow> transition" where
  "transition_at data i =
     \<lparr>t_state = seq_state data ! i, t_action = seq_action data ! i,
      t_next_state = seq_state data ! Suc i, t_reward = result data * decay_at i,
      t_option = seq_option data ! i, t_next_option = seq_option data ! Suc i\<rparr>"

section \<open>\<^verbatim>\<open>preprocess_state\<close>\<close>

definition get_field :: "'a option \<Rightarrow> error + 'a" where
  "get_field f = (case f of None \<Rightarrow> Inl KeyError | Some v \<Rightarrow> Inr v)"

definition dict_get :: "('k \<times> 'v) list \<Rightarrow> 'k \<Rightarrow> error + 'v" where
  "dict_get t k = (case map_of t k of None \<Rightarrow> Inl KeyError | Some v \<Rightarrow> Inr v)"

definition has_key :: "'k \<Rightarrow> ('k \<times> 'v) list \<Rightarrow> bool" where
  "has_key k t \<longleftrightarrow> k \<in> fst ` set t"

fun py_len :: "pystr \<Rightarrow> error + nat" where
  "py_len PyNone = Inl TypeError"
| "py_len (PyStr s) = Inr (length s)"

fun mapM :: "('a \<Rightarrow> error + 'b) \<Rightarrow> 'a list \<Rightarrow> error + 'b list" where
  "mapM f [] = Inr []"
| "mapM f (x # xs) = bind (f x) (\<lambda>y. bind (mapM f xs) (\<lambda>ys. Inr (y # ys)))"

text \<open>\<^verbatim>\<open>operable = [int(item["entity"]) for item in option]\<close>\<close>

definition operable_of :: "option_list \<Rightarrow> error + int list" where
  "operable_of option = mapM (\<lambda>item. bind (py_getitem item ''entity'') py_int) option"

text \<open>
  The condition under \<^verbatim>\<open>not\<close> in the list comprehension, with Python's left-to-right
  short-circuit evaluation: each \<^verbatim>\<open>len\<close> is taken before the next key is read, and
  \<^verbatim>\<open>entity["card_id"] is None\<close> comes after \<^verbatim>\<open>len(entity["card_id"])\<close>.
\<close>

definition dropped :: "definitions \<Rightarrow> entity \<Rightarrow> error + bool" where
  "dropped d entity =
     bind (get_field (card_name entity)) (\<lambda>name. bind (py_len name) (\<lambda>n1.
       if n1 = 0 then Inr True else
     bind (get_field (card_description entity)) (\<lambda>desc. bind (py_len desc) (\<lambda>n2.
       if n2 = 0 then Inr True else
     bind (get_field (card_id entity)) (\<lambda>cid. bind (py_len cid) (\<lambda>n3.
       if n3 = 0 then Inr True else
     bind (get_field (card_id entity)) (\<lambda>cid'.
       if cid' = PyNone then Inr True else
     bind (get_field (tags entity)) (\<lambda>t.
       if has_key (str_int (GAME_TAG_ZONE d)) t
       then bind (get_field (tags entity)) (\<lambda>t'.
              bind (dict_get t' (str_int (GAME_TAG_ZONE d))) (\<lambda>z.
              bind (int_str z) (\<lambda>zi. Inr (zi \<notin> set (zone d)))))
       else Inr False))))))))"

fun select_entities :: "definitions \<Rightarrow> state \<Rightarrow> error + state" where
  "select_entities d [] = Inr []"
| "select_entities d (entity # rest) =
     bind (dropped d entity) (\<lambda>b.
     bind (select_entities d rest) (\<lambda>kept.
       Inr (if b then kept else entity # kept)))"

text \<open>
  The first loop over \<^verbatim>\<open>list(entity["tags"])\<close>: the keys are a snapshot, the
  dictionary \<open>cur\<close> changes while the loop runs. \<open>tag_step\<close> is the loop body.
\<close>

definition tag_step ::
  "definitions \<Rightarrow> int list \<Rightarrow> bool \<Rightarrow> string \<Rightarrow> tags \<Rightarrow> error + tags"
where
  "tag_step d operable strip tag cur =
     bind (int_str tag) (\<lambda>ti.
       if ti \<notin> set (scope d) then
         (if strip then Inr (AList.delete tag cur) else Inr cur)
       else if ti = GAME_TAG_ENTITY_ID d then
         bind (dict_get cur tag) (\<lambda>v. bind (int_str v) (\<lambda>vi.
           if vi \<in> set operable
           then Inr (AList.update (str_int (TAG_READY d)) ''1'' cur)
           else Inr cur))
       else Inr cur)"

fun tag_loop ::
  "definitions \<Rightarrow> int list \<Rightarrow> bool \<Rightarrow> string list \<Rightarrow> tags \<Rightarrow> error + tags"
where
  "tag_loop d operable strip [] cur = Inr cur"
| "tag_loop d operable strip (tag # rest) cur =
     bind (tag_step d operable strip tag cur) (tag_loop d operable strip rest)"

text \<open>
  The second loop fills \<^verbatim>\<open>named_tags\<close> from the tag dictionary \<open>cur\<close>, which no longer
  changes. In the assignment the right-hand side is evaluated before the key.
\<close>

definition rename_step :: "definitions \<Rightarrow> tags \<Rightarrow> string \<Rightarrow> tags \<Rightarrow> error + tags" where
  "rename_step d cur tag named =
     bind (dict_get cur tag) (\<lambda>v.
     bind (int_str tag) (\<lambda>ti.
       case tag_map d ti of
         None \<Rightarrow> Inl KeyError
       | Some name \<Rightarrow> Inr (AList.update name v named)))"

fun rename_loop :: "definitions \<Rightarrow> tags \<Rightarrow> string list \<Rightarrow> tags \<Rightarrow> error + tags" where
  "rename_loop d cur [] named = Inr named"
| "rename_loop d cur (tag # rest) named =
     bind (rename_step d cur tag named) (rename_loop d cur rest)"

definition process_entity ::
  "definitions \<Rightarrow> int list \<Rightarrow> bool \<Rightarrow> entity \<Rightarrow> error + entity"
where
  "process_entity d operable strip entity =
     (let e1 = entity\<lparr>card_id := None, card_name := None\<rparr> in
      bind (get_field (tags e1)) (\<lambda>t0.
      bind (tag_loop d operable strip (map fst t0) t0) (\<lambda>t1.
      bind (rename_loop d t1 (map fst t1) []) (\<lambda>named.
        Inr (e1\<lparr>named_tags := Some named, tags := None\<rparr>)))))"

definition preprocess_state ::
  "definitions \<Rightarrow> state \<Rightarrow> option_list \<Rightarrow> bool \<Rightarrow> error + state"
where
  "preprocess_state d state option strip =
     bind (operable_of option) (\<lambda>operable.
     bind (select_entities d state) (\<lambda>kept.
       mapM (process_entity d operable strip) kept))"

section \<open>\<^verbatim>\<open>calculate_difference\<close>\<close>

definition entity_id_of :: "definitions \<Rightarrow> entity \<Rightarrow> error + string" where
  "entity_id_of d entity =
     bind (get_field (tags entity)) (\<lambda>t. dict_get t (str_int (GAME_TAG_ENTITY_ID d)))"

text \<open>The dictionary comprehension: a later entity with the same id replaces the value.\<close>

fun build_dict ::
  "definitions \<Rightarrow> (string \<times> tags) list \<Rightarrow> state \<Rightarrow> error + (string \<times> tags) list"
where
  "build_dict d acc [] = Inr acc"
| "build_dict d acc (entity # rest) =
     bind (entity_id_of d entity) (\<lambda>i.
     bind (get_field (tags entity)) (\<lambda>t.
       build_dict d (AList.update i t acc) rest))"

text \<open>
  The inner loop over the keys of the next state's tags; \<open>st\<close> and \<open>nt\<close> are
  \<^verbatim>\<open>state_dict[entity_id]\<close> and \<^verbatim>\<open>next_state_dict[entity_id]\<close>.
\<close>

fun diff_tags :: "tags \<Rightarrow> tags \<Rightarrow> string list \<Rightarrow> tags \<Rightarrow> error + tags" where
  "diff_tags st nt [] entity_difference = Inr entity_difference"
| "diff_tags st nt (key # rest) entity_difference =
     bind (if has_key key st
           then bind (dict_get st key) (\<lambda>a. bind (dict_get nt key) (\<lambda>b. Inr (a = b)))
           else Inr False) (\<lambda>same.
       if same then diff_tags st nt rest entity_difference
       else bind (dict_get nt key) (\<lambda>v.
              diff_tags st nt rest (AList.update key v entity_difference)))"

text \<open>
  The outer loop over the keys of \<^verbatim>\<open>next_state_dict\<close>. For an entity that is new,
  \<^verbatim>\<open>entity_difference\<close> is the tag dictionary of the next state itself; the assignment
  of the entity id then stores the value that dictionary already has under that key.
\<close>

fun diff_loop ::
  "definitions \<Rightarrow> (string \<times> tags) list \<Rightarrow> (string \<times> tags) list \<Rightarrow> string list \<Rightarrow>
   error + tags list"
where
  "diff_loop d state_dict next_state_dict [] = Inr []"
| "diff_loop d state_dict next_state_dict (entity_id # rest) =
     bind (if has_key entity_id state_dict
           then bind (dict_get next_state_dict entity_id) (\<lambda>nt.
                bind (dict_get state_dict entity_id) (\<lambda>st.
                  diff_tags st nt (map fst nt) []))
           else dict_get next_state_dict entity_id) (\<lambda>entity_difference.
       if length entity_difference > 0
       then bind (diff_loop d state_dict next_state_dict rest) (\<lambda>difference.
              Inr (AList.update (str_int (GAME_TAG_ENTITY_ID d)) entity_id entity_difference
                    # difference))
       else diff_loop d state_dict next_state_dict rest)"

definition calculate_difference :: "definitions \<Rightarrow> state \<Rightarrow> state \<Rightarrow> error + tags list" where
  "calculate_difference d state next_state =
     bind (build_dict d [] state) (\<lambda>state_dict.
     bind (build_dict d [] next_state) (\<lambda>next_state_dict.
       diff_loop d state_dict next_state_dict (map fst next_state_dict)))"

section \<open>The next-state input of \<^verbatim>\<open>check_data\<close> and \<^verbatim>\<open>tokenize_data\<close>\<close>

text \<open>
  Both functions compute \<^verbatim>\<open>stripped_state\<close> and then \<^verbatim>\<open>stripped_next_state\<close> with the
  same statements; the tokenizer is a library call and is left out.
\<close>

datatype next_input = Difference "tags list" | Stripped state

definition stripped_next_state :: "definitions \<Rightarrow> bool \<Rightarrow> transition \<Rightarrow> error + next_input" where
  "stripped_next_state d difference tr =
     bind (preprocess_state d (t_state tr) (t_option tr) True) (\<lambda>stripped_state.
       if difference then
         bind (preprocess_state d (t_next_state tr) (t_next_option tr) False)
           (\<lambda>full_next_state.
         bind (preprocess_state d (t_state tr) (t_option tr) False) (\<lambda>full_state.
         bind (calculate_difference d full_state full_next_state) (\<lambda>diff.
           Inr (Difference diff))))
       else
         bind (preprocess_state d (t_next_state tr) (t_next_option tr) True) (\<lambda>s.
           Inr (Stripped s)))"

section \<open>\<^verbatim>\<open>preprocess_input\<close>\<close>

text \<open>
  \<^verbatim>\<open>json.dumps\<close> is a library function; with its default \<^verbatim>\<open>ensure_ascii\<close> it returns
  ASCII text, so the text is a \<open>string\<close> here. \<open>py_replace\<close> is \<^verbatim>\<open>str.replace\<close>:
  every non-overlapping occurrence, from the left. \<open>re_sub_tags\<close> is
  \<^verbatim>\<open>re.sub(r"<.*?>", "", ret)\<close>: from each \<^verbatim>\<open><\<close> up to the nearest following \<^verbatim>\<open>>\<close>
  with no line feed in between. \<open>lower\<close> is \<^verbatim>\<open>str.lower\<close> on ASCII text.
\<close>

function py_replace :: "string \<Rightarrow> string \<Rightarrow> string \<Rightarrow> string" where
  "py_replace old new [] = (if old = [] then new else [])"
| "py_replace old new (c # cs) =
     (if old = [] then new @ c # py_replace old new cs
      else if take (length old) (c # cs) = old
           then new @ py_replace old new (drop (length old) (c # cs))
           else c # py_replace old new cs)"
  by pat_completeness auto
termination
  by (relation "measure (\<lambda>(old, new, s). length s)") auto

fun find_close :: "string \<Rightarrow> string option" where
  "find_close [] = None"
| "find_close (c # cs) =
     (if c = CHR ''>'' then Some cs
      else if c = CHR 0x0A then None
      else find_close cs)"

lemma find_close_length: "find_close cs = Some r \<Longrightarrow> length r < length cs"
  by (induction cs) (auto split: if_splits)

function re_sub_tags :: "string \<Rightarrow> string" where
  "re_sub_tags [] = []"
| "re_sub_tags (c # cs) =
     (if c = CHR ''<'' then
        (case find_close cs of
           Some r \<Rightarrow> re_sub_tags r
         | None \<Rightarrow> c # re_sub_tags cs)
      else c # re_sub_tags cs)"
  by pat_completeness auto
termination
  by (relation "measure length") (auto dest: find_close_length)

definition lower_char :: "char \<Rightarrow> char" where
  "lower_char c =
     (if 65 \<le> (of_char c :: nat) \<and> (of_char c :: nat) \<le> 90
      then char_of ((of_char c :: nat) + 32) else c)"

definition lower :: "string \<Rightarrow> string" where
  "lower s = map lower_char s"

definition removals :: "string list" where
  "removals = [[CHR 0x22], ''{'', ''}'', ''['', '']'', [CHR 0x27]]"

definition keyword_list :: "string list" where
  "keyword_list =
     [''entity'', ''type'', ''sub_options'', ''sub_option'', ''position'', ''targets'',
      ''target'', ''card_id'', ''card_name'', ''card_description'', ''named_tags'',
      ''tags'']"

text \<open>
  The serializer is a parameter of \<open>preprocess_input\<close>: \<open>dumps item\<close> is
  \<^verbatim>\<open>json.dumps(item, separators=(',', ':'))\<close>.
\<close>

definition preprocess_input :: "('a \<Rightarrow> string) \<Rightarrow> 'a \<Rightarrow> string" where
  "preprocess_input dumps item =
     (let ret = dumps item;
          ret = foldl (\<lambda>ret removal. py_replace removal [] ret) ret removals;
          ret = foldl (\<lambda>ret keyword. py_replace (keyword @ '':'') [] ret) ret keyword_list;
          ret = py_replace [CHR 0x5C, CHR ''n''] '' ''
                  (py_replace '','' '' '' (py_replace '':'' '' '' ret));
          ret = re_sub_tags ret
      in lower ret)"

text \<open>
  \<^verbatim>\<open>json.dumps\<close> with these separators on the JSON values above: strings are quoted,
  with the short escapes, and every character outside the range from space to tilde is
  written as \<^verbatim>\<open>\u00XX\<close>.
\<close>

definition hex_digit :: "nat \<Rightarrow> char" where
  "hex_digit n = (if n < 10 then char_of (48 + n) else char_of (87 + n))"

definition escape_char :: "char \<Rightarrow> string" where
  "escape_char c =
     (if c = CHR 0x22 then [CHR 0x5C, CHR 0x22]
      else if c = CHR 0x5C then [CHR 0x5C, CHR 0x5C]
      else if c = CHR 0x0A then [CHR 0x5C, CHR ''n'']
      else if c = CHR 0x0D then [CHR 0x5C, CHR ''r'']
      else if c = CHR 0x09 then [CHR 0x5C, CHR ''t'']
      else if c = CHR 0x0C then [CHR 0x5C, CHR ''f'']
      else if c = CHR 0x08 then [CHR 0x5C, CHR ''b'']
      else if (of_char c :: nat) < 32 \<or> 126 < (of_char c :: nat)
      then [CHR 0x5C, CHR ''u'', CHR ''0'', CHR ''0'',
            hex_digit (of_char c div 16), hex_digit (of_char c mod 16)]
      else [c])"

definition json_string :: "string \<Rightarrow> string" where
  "json_string s = [CHR 0x22] @ concat (map escape_char s) @ [CHR 0x22]"

fun join :: "string \<Rightarrow> string list \<Rightarrow> string" where
  "join sep [] = []"
| "join sep [x] = x"
| "join sep (x # y # ys) = x @ sep @ join sep (y # ys)"

fun json_dumps :: "json \<Rightarrow> string" where
  "json_dumps JNull = ''null''"
| "json_dumps (JBool b) = (if b then ''true'' else ''false'')"
| "json_dumps (JInt n) = str_int n"
| "json_dumps (JStr s) = json_string s"
| "json_dumps (JList xs) = ''['' @ join '','' (map json_dumps xs) @ '']''"
| "json_dumps (JObj kvs) =
     ''{'' @ join '','' (map (\<lambda>kv. json_string (fst kv) @ '':'' @ json_dumps (snd kv)) kvs) @ ''}''"

text \<open>The characters the flattened text must not contain, and the capital letters.\<close>

definition forbidden :: "char set" where
  "forbidden = {CHR 0x22, CHR 0x27, CHR ''{'', CHR ''}'', CHR ''['', CHR '']'', CHR '':'', CHR '',''}"

definition is_upper :: "char \<Rightarrow> bool" where
  "is_upper c \<longleftrightarrow> 65 \<le> (of_char c :: nat) \<and> (of_char c :: nat) \<le> 90"

section \<open>Example data\<close>

text \<open>
  Values for the imported constants, as the Hearthstone log format numbers them, and
  small trajectories. They are used to run the functions on concrete inputs.
\<close>

definition example_tag_map :: "int \<Rightarrow> string option" where
  "example_tag_map =
     map_of [(53, ''ENTITY_ID''), (45, ''HEALTH''), (47, ''ATK''), (48, ''COST''),
             (292, ''ARMOR''), (49, ''ZONE''), (50, ''CONTROLLER''), (199, ''CLASS''),
             (200, ''CARDRACE''), (202, ''CARDTYPE''), (219, ''SECRET''),
             (263, ''ZONE_POSITION''), (43, ''EXHAUSTED''), (44, ''DAMAGE''),
             (10000, ''TAG_READY'')]"

definition example_definitions :: definitions where
  "example_definitions =
     \<lparr>GAME_TAG_ENTITY_ID = 53, GAME_TAG_HEALTH = 45, GAME_TAG_ATK = 47, GAME_TAG_COST = 48,
      GAME_TAG_ARMOR = 292, GAME_TAG_ZONE = 49, GAME_TAG_CONTROLLER = 50,
      GAME_TAG_CLASS = 199, GAME_TAG_CARDRACE = 200, GAME_TAG_CARDTYPE = 202,
      GAME_TAG_SECRET = 219, GAME_TAG_ZONE_POSITION = 263, TAG_READY = 10000,
      TAG_ZONE_SECRET = 7, TAG_ZONE_HAND = 3, TAG_ZONE_PLAY = 1,
      OPTION_TYPE_END_TURN = 2, tag_map = example_tag_map\<rparr>"

definition power_action :: json where
  "power_action = JObj [(''type'', JStr ''3''), (''entity'', JStr ''12'')]"

definition end_turn_action :: json where
  "end_turn_action = JObj [(''type'', JStr ''2'')]"

definition four_step_trajectory :: trajectory where
  "four_step_trajectory =
     \<lparr>result = 1, seq_state = [[], [], [], []],
      seq_action = [power_action, power_action, power_action, power_action],
      seq_option = [[], [], [], []]\<rparr>"

definition end_turn_trajectory :: trajectory where
  "end_turn_trajectory =
     \<lparr>result = 1, seq_state = [[], []],
      seq_action = [end_turn_action, power_action],
      seq_option = [[], []]\<rparr>"

definition mixed_trajectory :: trajectory where
  "mixed_trajectory =
     \<lparr>result = 1, seq_state = [[], [], [], []],
      seq_action = [power_action, end_turn_action, power_action, power_action],
      seq_option = [[], [], [], []]\<rparr>"

text \<open>The text of \<open>preprocess_input\<close> before the final \<^verbatim>\<open>lower()\<close>.\<close>

definition flattened :: "string \<Rightarrow> string" where
  "flattened ret0 =
     (let ret = foldl (\<lambda>ret removal. py_replace removal [] ret) ret0 removals;
          ret = foldl (\<lambda>ret keyword. py_replace (keyword @ '':'') [] ret) ret keyword_list;
          ret = py_replace [CHR 0x5C, CHR ''n''] '' ''
                  (py_replace '','' '' '' (py_replace '':'' '' '' ret))
      in re_sub_tags ret)"

text \<open>Entities as the recorded states hold them.\<close>

definition wisp :: entity where
  "wisp =
     \<lparr>card_name = Some (PyStr ''Wisp''), card_description = Some (PyStr ''A small minion''),
      card_id = Some (PyStr ''CS2_231''),
      tags = Some [(''53'', ''12''), (''49'', ''1''), (''45'', ''1''), (''43'', ''0'')],
      named_tags = None\<rparr>"

definition hurt_wisp :: entity where
  "hurt_wisp = wisp\<lparr>tags := Some [(''53'', ''12''), (''49'', ''1''), (''45'', ''0''), (''43'', ''0'')]\<rparr>"

definition coin :: entity where
  "coin =
     \<lparr>card_name = Some (PyStr ''The Coin''), card_description = Some (PyStr ''Gain 1 mana''),
      card_id = Some (PyStr ''GAME_005''),
      tags = Some [(''53'', ''68''), (''49'', ''3''), (''48'', ''0'')],
      named_tags = None\<rparr>"

text \<open>
  A transition from the wisp to the hurt wisp; the wisp is the entity of the one option.
  \<open>full_wisp\<close> and \<open>full_hurt_wisp\<close> are what \<^verbatim>\<open>preprocess_state\<close> makes of the two
  states without stripping.
\<close>

definition wisp_transition :: transition where
  "wisp_transition =
     \<lparr>t_state = [wisp], t_action = power_action, t_next_state = [hurt_wisp],
      t_reward = 9 / 10, t_option = [power_action], t_next_option = []\<rparr>"

definition full_wisp :: entity where
  "full_wisp =
     \<lparr>card_name = None, card_description = Some (PyStr ''A small minion''),
      card_id = None, tags = None,
      named_tags = Some [(''ENTITY_ID'', ''12''), (''ZONE'', ''1''), (''HEALTH'', ''1''),
                         (''EXHAUSTED'', ''0''), (''TAG_READY'', ''1'')]\<rparr>"

definition full_hurt_wisp :: entity where
  "full_hurt_wisp =
     \<lparr>card_name = None, card_description = Some (PyStr ''A small minion''),
      card_id = None, tags = None,
      named_tags = Some [(''ENTITY_ID'', ''12''), (''ZONE'', ''1''), (''HEALTH'', ''0''),
                         (''EXHAUSTED'', ''0'')]\<rparr>"

text \<open>An entity as the recorded states can hold it, with \<^verbatim>\<open>"card_id": null\<close>.\<close>

definition null_id_wisp :: entity where
  "null_id_wisp = wisp\<lparr>card_id := Some PyNone\<rparr>"

text \<open>
  The names of the fixed schema: what \<^verbatim>\<open>tag_map\<close> gives for the twelve tags of
  \<^verbatim>\<open>scope\<close> and for TAG_READY. A key of a tag dictionary belongs to the schema when it
  reads as a number of \<^verbatim>\<open>scope\<close> or is the TAG_READY key.
\<close>

definition scope_names :: "definitions \<Rightarrow> string set" where
  "scope_names d = set (List.map_filter (tag_map d) (scope d @ [TAG_READY d]))"

definition schema_key :: "definitions \<Rightarrow> string \<Rightarrow> bool" where
  "schema_key d k \<longleftrightarrow>
     (case int_str k of Inl e \<Rightarrow> False | Inr n \<Rightarrow> n \<in> set (scope d)) \<or>
     k = str_int (TAG_READY d)"

text \<open>The value of a string of decimal digits, continuing from \<open>acc\<close>.\<close>

definition digits_value :: "nat \<Rightarrow> string \<Rightarrow> nat" where
  "digits_value acc ds = foldl (\<lambda>a c. 10 * a + digit_val c) acc ds"

text \<open>What \<^verbatim>\<open>preprocess_state\<close> makes of the wisp with stripping.\<close>

definition stripped_wisp :: entity where
  "stripped_wisp =
     \<lparr>card_name = None, card_description = Some (PyStr ''A small minion''),
      card_id = None, tags = None,
      named_tags = Some [(''ENTITY_ID'', ''12''), (''ZONE'', ''1''), (''HEALTH'', ''1''),
                         (''TAG_READY'', ''1'')]\<rparr>"

section \<open>Properties of \<^verbatim>\<open>collate_sequence_data\<close>\<close>

lemma collate_loop_collated:
  "\<forall>r \<in> set rs. \<exists>ty. action_type (fst (snd r)) = Inr ty \<Longrightarrow>
   collate_loop d res (decay_at k) acc rs = Inr (acc @ collated d res k rs)"
proof (induction rs arbitrary: k acc)
  case Nil
  then show ?case by simp
next
  case (Cons r rs)
  obtain s a ns o' no where r: "r = (s, a, ns, o', no)" by (cases r) auto
  from Cons.prems obtain ty where ty: "action_type a = Inr ty" by (auto simp: r)
  have rest: "\<forall>r \<in> set rs. \<exists>ty. action_type (fst (snd r)) = Inr ty"
    using Cons.prems by simp
  show ?case
    using Cons.IH [OF rest, of "Suc k"]
    by (simp add: r ty bind_def retained_def mk_transition_def Let_def)
qed


lemma collated_index:
  "collated d res k rs =
     map (\<lambda>i. mk_transition res (k + i) (rs ! i))
       (filter (\<lambda>i. retained d (fst (snd (rs ! i)))) [0..<length rs])"
proof (induction rs arbitrary: k)
  case Nil
  then show ?case by simp
next
  case (Cons r rs)
  have upt: "[0..<length (r # rs)] = 0 # map Suc [0..<length rs]"
    by (simp add: upt_conv_Cons map_Suc_upt del: upt_Suc)
  show ?case
    unfolding upt by (simp add: Cons.IH filter_map comp_def)
qed





lemma rows_length:
  "length (seq_state data) = n \<Longrightarrow> length (seq_action data) = n \<Longrightarrow>
   length (seq_option data) = n \<Longrightarrow> length (rows data) = n - 1"
  by (simp add: rows_def)

lemma rows_nth:
  assumes "length (seq_state data) = n" "length (seq_action data) = n"
    "length (seq_option data) = n" "i < n - 1"
  shows "rows data ! i =
    (seq_state data ! i, seq_action data ! i, seq_state data ! Suc i,
     seq_option data ! i, seq_option data ! Suc i)"
  using assms by (simp add: rows_def nth_butlast nth_tl)

lemma collate_sequence_data_rows:
  "\<forall>r \<in> set (rows data). \<exists>ty. action_type (fst (snd r)) = Inr ty \<Longrightarrow>
   collate_sequence_data d data =
     Inr (map (\<lambda>i. mk_transition (result data) i (rows data ! i))
           (filter (\<lambda>i. retained d (fst (snd (rows data ! i)))) [0..<length (rows data)]))"
  using collate_loop_collated [of "rows data" d "result data" 0 "[]"]
  by (simp add: collate_sequence_data_def collated_index)

text \<open>
  Claim C4, as the code has it. For a trajectory with \<open>n\<close> states, \<open>n\<close> actions and
  \<open>n\<close> options in which the type of each action of a consecutive pair is read by
  \<^verbatim>\<open>int\<close>, \<^verbatim>\<open>collate_sequence_data\<close> returns one tuple for every consecutive pair
  \<open>i\<close> from \<open>0\<close> to \<open>n - 2\<close> whose action is not END_TURN, in order, and the tuple of
  pair \<open>i\<close> is (state \<open>i\<close>, action \<open>i\<close>, state \<open>i + 1\<close>, reward \<open>i\<close>, option \<open>i\<close>,
  option \<open>i + 1\<close>). With no END_TURN action among them these are \<open>n - 1\<close> tuples.
\<close>

theorem collate_one_tuple_per_retained_pair:
  assumes len: "length (seq_state data) = n" "length (seq_action data) = n"
      "length (seq_option data) = n"
    and types: "\<forall>i < n - 1. \<exists>ty. action_type (seq_action data ! i) = Inr ty"
  shows "collate_sequence_data d data =
    Inr (map (transition_at data)
          (filter (\<lambda>i. retained d (seq_action data ! i)) [0..<n - 1]))"
proof -
  have l: "length (rows data) = n - 1" using len by (rule rows_length)
  have nth: "\<And>i. i < n - 1 \<Longrightarrow> rows data ! i =
      (seq_state data ! i, seq_action data ! i, seq_state data ! Suc i,
       seq_option data ! i, seq_option data ! Suc i)"
    using len by (rule rows_nth)
  have "\<forall>r \<in> set (rows data). \<exists>ty. action_type (fst (snd r)) = Inr ty"
  proof
    fix r assume "r \<in> set (rows data)"
    then obtain i where "i < n - 1" "r = rows data ! i"
      using l by (auto simp: in_set_conv_nth)
    then show "\<exists>ty. action_type (fst (snd r)) = Inr ty"
      using types nth by simp
  qed
  then have "collate_sequence_data d data =
     Inr (map (\<lambda>i. mk_transition (result data) i (rows data ! i))
           (filter (\<lambda>i. retained d (fst (snd (rows data ! i)))) [0..<n - 1]))"
    using collate_sequence_data_rows [of data d] l by simp
  moreover have "filter (\<lambda>i. retained d (fst (snd (rows data ! i)))) [0..<n - 1] =
      filter (\<lambda>i. retained d (seq_action data ! i)) [0..<n - 1]"
    by (rule filter_cong) (simp_all add: nth)
  moreover have "map (\<lambda>i. mk_transition (result data) i (rows data ! i))
        (filter (\<lambda>i. retained d (seq_action data ! i)) [0..<n - 1]) =
      map (transition_at data) (filter (\<lambda>i. retained d (seq_action data ! i)) [0..<n - 1])"
    by (rule map_cong) (simp_all add: nth mk_transition_def transition_at_def)
  ultimately show ?thesis by simp
qed

theorem collate_one_tuple_per_retained_pair_witness:
  "length (seq_state mixed_trajectory) = 4 \<and> length (seq_action mixed_trajectory) = 4 \<and>
   length (seq_option mixed_trajectory) = 4 \<and>
   action_type (seq_action mixed_trajectory ! 0) = Inr 3 \<and>
   action_type (seq_action mixed_trajectory ! 1) = Inr 2 \<and>
   action_type (seq_action mixed_trajectory ! 2) = Inr 3 \<and>
   collate_sequence_data example_definitions mixed_trajectory =
     Inr [transition_at mixed_trajectory 0, transition_at mixed_trajectory 2]"
proof -
  have t0: "action_type (seq_action mixed_trajectory ! 0) = Inr 3" by code_simp
  have t1: "action_type (seq_action mixed_trajectory ! 1) = Inr 2" by code_simp
  have t2: "action_type (seq_action mixed_trajectory ! 2) = Inr 3" by code_simp
  have h1: "length (seq_state mixed_trajectory) = 4" by (simp add: mixed_trajectory_def)
  have h2: "length (seq_action mixed_trajectory) = 4" by (simp add: mixed_trajectory_def)
  have h3: "length (seq_option mixed_trajectory) = 4" by (simp add: mixed_trajectory_def)
  have h4: "\<forall>i < 4 - 1. \<exists>ty. action_type (seq_action mixed_trajectory ! i) = Inr ty"
  proof (intro allI impI)
    fix i :: nat assume "i < 4 - 1"
    then have "i = 0 \<or> i = 1 \<or> i = 2" by auto
    then show "\<exists>ty. action_type (seq_action mixed_trajectory ! i) = Inr ty"
      using t0 t1 t2 by auto
  qed
  have f: "filter (\<lambda>i. retained example_definitions (seq_action mixed_trajectory ! i))
      [0..<3] = [0, 2]"
    by code_simp
  have "collate_sequence_data example_definitions mixed_trajectory =
     Inr [transition_at mixed_trajectory 0, transition_at mixed_trajectory 2]"
    using collate_one_tuple_per_retained_pair [OF h1 h2 h3 h4, of example_definitions]
    by (simp add: f)
  with h1 h2 h3 t0 t1 t2 show ?thesis by blast
qed

text \<open>
  Two states, two actions and two options, the first action being END_TURN: the claim
  of one tuple for each of the \<open>n - 1 = 1\<close> consecutive pairs fails, the result is empty.
\<close>

theorem collate_count_counterexample:
  "length (seq_state end_turn_trajectory) = 2 \<and> length (seq_action end_turn_trajectory) = 2 \<and>
   length (seq_option end_turn_trajectory) = 2 \<and>
   collate_sequence_data example_definitions end_turn_trajectory = Inr []"
  by code_simp



text \<open>
  Claim C1 at a trajectory of four states with result \<open>1\<close> and no END_TURN action: the
  rewards are \<open>0.9\<close>, \<open>0.81\<close> and \<open>0.6561\<close>. The statement
  \<^verbatim>\<open>decay_factor *= decay_factor\<close> squares the factor, so the third reward is
  \<open>0.9 ^ 4\<close> and not \<open>0.9 ^ 3\<close>; by \<open>decay_at_power\<close> the reward of pair \<open>i\<close> is the
  result times \<open>0.9 ^ (2 ^ i)\<close>.
\<close>

theorem collate_reward_not_geometric:
  "map_sum id (map t_reward) (collate_sequence_data example_definitions four_step_trajectory)
     = Inr [9 / 10, 81 / 100, 6561 / 10000]
   \<and> (6561 / 10000 :: real) \<noteq> result four_step_trajectory * (9 / 10) ^ (2 + 1)"
  by code_simp

section \<open>Properties of \<^verbatim>\<open>preprocess_input\<close>\<close>

lemma py_replace_subset: "set (py_replace old new s) \<subseteq> set s \<union> set new"
proof (induction old new s rule: py_replace.induct)
  case (1 old new)
  then show ?case by auto
next
  case (2 old new c cs)
  have "set (drop (length old) (c # cs)) \<subseteq> set (c # cs)" by (rule set_drop_subset)
  with 2 show ?case by (auto split: if_splits)
qed

lemma py_replace_keeps_out:
  "c \<notin> set s \<Longrightarrow> c \<notin> set new \<Longrightarrow> c \<notin> set (py_replace old new s)"
  using py_replace_subset [of old new s] by auto

lemma py_replace_removes: "c \<notin> set new \<Longrightarrow> c \<notin> set (py_replace [c] new s)"
  by (induction s) auto

lemma foldl_replace_keeps_out:
  "c \<notin> set s \<Longrightarrow> c \<notin> set (foldl (\<lambda>ret x. py_replace (g x) [] ret) s xs)"
  by (induction xs arbitrary: s) (simp_all add: py_replace_keeps_out)

lemma foldl_replace_removes:
  "[c] \<in> set xs \<Longrightarrow> c \<notin> set (foldl (\<lambda>ret x. py_replace x [] ret) s xs)"
proof (induction xs arbitrary: s)
  case Nil
  then show ?case by simp
next
  case (Cons x xs)
  show ?case
  proof (cases "x = [c]")
    case True
    have "c \<notin> set (py_replace [c] [] s)" by (rule py_replace_removes) simp
    then show ?thesis
      using foldl_replace_keeps_out [where g = "\<lambda>x. x"] by (simp add: True)
  next
    case False
    with Cons show ?thesis by simp
  qed
qed

lemma find_close_subset: "find_close cs = Some r \<Longrightarrow> set r \<subseteq> set cs"
  by (induction cs) (auto split: if_splits)

lemma re_sub_tags_subset: "set (re_sub_tags s) \<subseteq> set s"
proof (induction s rule: re_sub_tags.induct)
  case 1
  then show ?case by simp
next
  case (2 c cs)
  show ?case
  proof (cases "c = CHR ''<''")
    case lt: True
    show ?thesis
    proof (cases "find_close cs")
      case None
      with lt 2 show ?thesis by auto
    next
      case (Some r)
      have "set (re_sub_tags r) \<subseteq> set r" using 2(2) [OF lt Some] .
      moreover have "set r \<subseteq> set cs" using Some by (rule find_close_subset)
      ultimately show ?thesis using lt Some by auto
    qed
  next
    case False
    with 2 show ?thesis by auto
  qed
qed

lemma lower_char_not_upper: "\<not> is_upper (lower_char c)"
  by (auto simp: is_upper_def lower_char_def)

lemma lower_char_idem: "lower_char (lower_char c) = lower_char c"
proof -
  have "\<not> (65 \<le> (of_char (lower_char c) :: nat) \<and> (of_char (lower_char c) :: nat) \<le> 90)"
    using lower_char_not_upper [of c] by (simp add: is_upper_def)
  then show ?thesis
    unfolding lower_char_def [of "lower_char c"] by (rule if_not_P)
qed

lemma lower_char_forbidden: "lower_char c \<in> forbidden \<Longrightarrow> c \<in> forbidden"
proof (cases "is_upper c")
  case False
  assume "lower_char c \<in> forbidden"
  with False show ?thesis by (auto simp: is_upper_def lower_char_def split: if_splits)
next
  case True
  assume a: "lower_char c \<in> forbidden"
  have "(of_char (lower_char c) :: nat) = of_char c + 32"
    using True by (simp add: is_upper_def lower_char_def)
  moreover have "(of_char (lower_char c) :: nat) \<in> {34, 39, 123, 125, 91, 93, 58, 44}"
    using a by (auto simp: forbidden_def)
  ultimately show ?thesis using True by (auto simp: is_upper_def)
qed

lemma removed_chars_gone:
  assumes "[c] \<in> set removals"
  shows "c \<notin> set (flattened s)"
proof -
  let ?a = "foldl (\<lambda>ret removal. py_replace removal [] ret) s removals"
  let ?b = "foldl (\<lambda>ret keyword. py_replace (keyword @ '':'') [] ret) ?a keyword_list"
  have c_sp: "c \<notin> set '' ''" using assms by (auto simp: removals_def)
  have "c \<notin> set ?a" using assms by (rule foldl_replace_removes)
  then have "c \<notin> set ?b" by (rule foldl_replace_keeps_out)
  then have "c \<notin> set (py_replace [CHR 0x5C, CHR ''n''] '' ''
                  (py_replace '','' '' '' (py_replace '':'' '' '' ?b)))"
    using c_sp by (intro py_replace_keeps_out)
  then show ?thesis
    using re_sub_tags_subset unfolding flattened_def Let_def by blast
qed

lemma colon_comma_gone:
  "CHR '':'' \<notin> set (flattened s) \<and> CHR '','' \<notin> set (flattened s)"
proof -
  let ?a = "foldl (\<lambda>ret removal. py_replace removal [] ret) s removals"
  let ?b = "foldl (\<lambda>ret keyword. py_replace (keyword @ '':'') [] ret) ?a keyword_list"
  have 1: "CHR '':'' \<notin> set (py_replace '':'' '' '' ?b)"
    by (rule py_replace_removes) simp
  have 2: "CHR '':'' \<notin> set (py_replace '','' '' '' (py_replace '':'' '' '' ?b))"
    using 1 by (rule py_replace_keeps_out) simp
  have 3: "CHR '','' \<notin> set (py_replace '','' '' '' (py_replace '':'' '' '' ?b))"
    by (rule py_replace_removes) simp
  have 4: "CHR '':'' \<notin> set (py_replace [CHR 0x5C, CHR ''n''] '' ''
                  (py_replace '','' '' '' (py_replace '':'' '' '' ?b)))"
    using 2 by (rule py_replace_keeps_out) simp
  have 5: "CHR '','' \<notin> set (py_replace [CHR 0x5C, CHR ''n''] '' ''
                  (py_replace '','' '' '' (py_replace '':'' '' '' ?b)))"
    using 3 by (rule py_replace_keeps_out) simp
  show ?thesis
    using 4 5 re_sub_tags_subset unfolding flattened_def Let_def by blast
qed

lemma flattened_no_forbidden: "set (flattened s) \<inter> forbidden = {}"
proof -
  have "c \<notin> set (flattened s)" if "c \<in> forbidden" for c
  proof -
    from that consider "[c] \<in> set removals" | "c = CHR '':''" | "c = CHR '',''"
      by (auto simp: forbidden_def removals_def)
    then show ?thesis
      using removed_chars_gone colon_comma_gone by cases auto
  qed
  then show ?thesis by auto
qed

lemma preprocess_input_flattened:
  "preprocess_input dumps item = lower (flattened (dumps item))"
  by (simp add: preprocess_input_def flattened_def Let_def)

text \<open>
  Claim C7. Whatever text the serializer returns for the item, the string returned by
  \<^verbatim>\<open>preprocess_input\<close> is entirely lowercase (lowering it again changes nothing, and
  it holds no capital letter) and contains none of the characters double quote, single
  quote, left and right brace, left and right bracket, colon and comma.
\<close>

theorem preprocess_input_lowercase_no_punctuation:
  "lower (preprocess_input dumps item) = preprocess_input dumps item
   \<and> set (preprocess_input dumps item) \<inter> Collect is_upper = {}
   \<and> set (preprocess_input dumps item) \<inter> forbidden = {}"
proof -
  let ?f = "flattened (dumps item)"
  have a: "lower (lower ?f) = lower ?f"
    by (simp add: lower_def lower_char_idem)
  have b: "set (lower ?f) \<inter> Collect is_upper = {}"
    by (auto simp: lower_def lower_char_not_upper)
  have c: "set (lower ?f) \<inter> forbidden = {}"
    using flattened_no_forbidden [of "dumps item"]
    by (auto simp: lower_def dest: lower_char_forbidden)
  show ?thesis
    using a b c by (simp add: preprocess_input_flattened)
qed

text \<open>The action \<^verbatim>\<open>{"type": "3", "entity": "12"}\<close> is flattened to \<^verbatim>\<open>3 12\<close>.\<close>

lemma preprocess_input_power_action: "preprocess_input json_dumps power_action = ''3 12''"
  by code_simp

section \<open>Properties of \<^verbatim>\<open>calculate_difference\<close>\<close>

lemma dict_get_has_key: "has_key k t \<Longrightarrow> \<exists>v. dict_get t k = Inr v"
proof -
  assume "has_key k t"
  then have "map_of t k \<noteq> None" by (simp add: has_key_def map_of_eq_None_iff)
  then show ?thesis by (auto simp: dict_get_def)
qed

lemma dict_get_Inr_has_key: "dict_get t k = Inr v \<Longrightarrow> has_key k t"
proof -
  assume "dict_get t k = Inr v"
  then have "map_of t k \<noteq> None" by (auto simp: dict_get_def split: option.splits)
  then show ?thesis by (simp add: has_key_def map_of_eq_None_iff)
qed

lemma has_key_update: "has_key k (AList.update k' v t) \<longleftrightarrow> k = k' \<or> has_key k t"
  by (simp add: has_key_def AList.dom_update)

lemma diff_tags_same:
  "set keys \<subseteq> fst ` set t \<Longrightarrow> diff_tags t t keys acc = Inr acc"
proof (induction keys arbitrary: acc)
  case Nil
  then show ?case by simp
next
  case (Cons k keys)
  then have hk: "has_key k t" by (simp add: has_key_def)
  from dict_get_has_key [OF hk] obtain v where v: "dict_get t k = Inr v" ..
  show ?case using Cons by (simp add: hk v bind_def)
qed

lemma build_dict_returns:
  "\<forall>e \<in> set s. \<exists>i. entity_id_of d e = Inr i \<Longrightarrow> \<exists>sd. build_dict d acc s = Inr sd"
proof (induction s arbitrary: acc)
  case Nil
  then show ?case by simp
next
  case (Cons e s)
  then obtain i where i: "entity_id_of d e = Inr i" by auto
  then obtain t where t: "tags e = Some t"
    by (cases "tags e") (auto simp: entity_id_of_def get_field_def bind_def)
  show ?case using Cons by (simp add: i t bind_def get_field_def)
qed

lemma diff_loop_same:
  "set ids \<subseteq> fst ` set sd \<Longrightarrow> diff_loop d sd sd ids = Inr []"
proof (induction ids)
  case Nil
  then show ?case by simp
next
  case (Cons i ids)
  then have hk: "has_key i sd" by (simp add: has_key_def)
  from dict_get_has_key [OF hk] obtain t where t: "dict_get sd i = Inr t" ..
  have "diff_tags t t (map fst t) [] = Inr []" by (rule diff_tags_same) simp
  then show ?case using Cons by (simp add: hk t bind_def)
qed

text \<open>
  Claim C8. For every state whose entities carry a tag dictionary with the ENTITY_ID
  tag, the difference of the state with itself is the empty list.
\<close>

theorem calculate_difference_self_empty:
  assumes "\<forall>e \<in> set s. \<exists>i. entity_id_of d e = Inr i"
  shows "calculate_difference d s s = Inr []"
proof -
  obtain sd where sd: "build_dict d [] s = Inr sd"
    using build_dict_returns [OF assms] by blast
  have "diff_loop d sd sd (map fst sd) = Inr []" by (rule diff_loop_same) simp
  then show ?thesis by (simp add: calculate_difference_def sd bind_def)
qed

theorem calculate_difference_self_empty_witness:
  "entity_id_of example_definitions wisp = Inr ''12'' \<and>
   entity_id_of example_definitions coin = Inr ''68'' \<and>
   calculate_difference example_definitions [wisp, coin] [wisp, coin] = Inr []"
proof -
  have a: "entity_id_of example_definitions wisp = Inr ''12''" by code_simp
  have b: "entity_id_of example_definitions coin = Inr ''68''" by code_simp
  have "\<forall>e \<in> set [wisp, coin]. \<exists>i. entity_id_of example_definitions e = Inr i"
    using a b by simp
  from calculate_difference_self_empty [OF this] a b show ?thesis by blast
qed

text \<open>
  Two runs: a changed HEALTH tag gives one entry with that tag and the entity id, and an
  entity that is new gives an entry with all its tags.
\<close>

lemma calculate_difference_changed_tag: "calculate_difference example_definitions [wisp, coin] [hurt_wisp, coin]
   = Inr [[(''45'', ''0''), (''53'', ''12'')]]"
  by code_simp

lemma calculate_difference_new_entity: "calculate_difference example_definitions [wisp] [hurt_wisp, coin]
   = Inr [[(''45'', ''0''), (''53'', ''12'')], [(''53'', ''68''), (''49'', ''3''), (''48'', ''0'')]]"
  by code_simp

section \<open>The examples, evaluated\<close>

lemma bind_Inr [simp]: "bind (Inr x) f = f x"
  by (simp add: bind_def)

lemma bind_Inl [simp]: "bind (Inl e) f = Inl e"
  by (simp add: bind_def)

lemma bind_Inr_iff: "bind m f = Inr y \<longleftrightarrow> (\<exists>x. m = Inr x \<and> f x = Inr y)"
  by (cases m) simp_all

lemma digit_chars:
  "char_of (48 :: nat) = CHR ''0''" "char_of (49 :: nat) = CHR ''1''"
  by code_simp+

lemma str_int_10000: "str_int 10000 = ''10000''"
  by (simp add: str_int_def str_nat.simps digit_chars)

lemma example_constants:
  "GAME_TAG_ENTITY_ID example_definitions = 53"
  "GAME_TAG_ZONE example_definitions = 49"
  "TAG_READY example_definitions = 10000"
  "OPTION_TYPE_END_TURN example_definitions = 2"
  "tag_map example_definitions = example_tag_map"
  "scope example_definitions = [53, 45, 47, 48, 292, 49, 50, 199, 200, 202, 219, 263]"
  "zone example_definitions = [7, 3, 1]"
  by (simp_all add: scope_def zone_def example_definitions_def)

lemma str_int_53: "str_int 53 = ''53''"
  by code_simp

lemma str_int_49: "str_int 49 = ''49''"
  by code_simp

lemma int_str_53: "int_str ''53'' = Inr 53"
  by code_simp

lemma int_str_49: "int_str ''49'' = Inr 49"
  by code_simp

lemma int_str_45: "int_str ''45'' = Inr 45"
  by code_simp

lemma int_str_43: "int_str ''43'' = Inr 43"
  by code_simp

lemma int_str_10000: "int_str ''10000'' = Inr 10000"
  by code_simp

lemma int_str_12: "int_str ''12'' = Inr 12"
  by code_simp

lemma int_str_1: "int_str ''1'' = Inr 1"
  by code_simp

lemma example_names:
  "example_tag_map 53 = Some ''ENTITY_ID''"
  "example_tag_map 49 = Some ''ZONE''"
  "example_tag_map 45 = Some ''HEALTH''"
  "example_tag_map 43 = Some ''EXHAUSTED''"
  "example_tag_map 10000 = Some ''TAG_READY''"
  by (simp_all add: example_tag_map_def)

lemmas example_eval = example_constants example_names str_int_53 str_int_49 str_int_10000
  int_str_53 int_str_49 int_str_45 int_str_43 int_str_10000 int_str_12 int_str_1

lemma operable_power: "operable_of [power_action] = Inr [12]"
  by (simp add: operable_of_def power_action_def int_str_12)

lemma operable_none: "operable_of [] = Inr []"
  by (simp add: operable_of_def)

lemma dropped_wisp: "dropped example_definitions wisp = Inr False"
  by (simp add: dropped_def wisp_def get_field_def has_key_def dict_get_def example_eval)

lemma dropped_hurt_wisp: "dropped example_definitions hurt_wisp = Inr False"
  by (simp add: dropped_def hurt_wisp_def wisp_def get_field_def has_key_def dict_get_def
      example_eval)

lemma process_wisp_full: "process_entity example_definitions [12] False wisp = Inr full_wisp"
  by (simp add: process_entity_def wisp_def full_wisp_def get_field_def tag_step_def
      rename_step_def dict_get_def example_eval)

lemma process_hurt_wisp_full:
  "process_entity example_definitions [] False hurt_wisp = Inr full_hurt_wisp"
  by (simp add: process_entity_def hurt_wisp_def wisp_def full_hurt_wisp_def get_field_def
      tag_step_def rename_step_def dict_get_def example_eval)

lemma process_wisp_stripped:
  "process_entity example_definitions [12] True wisp =
     Inr (full_wisp\<lparr>named_tags := Some [(''ENTITY_ID'', ''12''), (''ZONE'', ''1''),
                                        (''HEALTH'', ''1''), (''TAG_READY'', ''1'')]\<rparr>)"
  by (simp add: process_entity_def wisp_def full_wisp_def get_field_def tag_step_def
      rename_step_def dict_get_def example_eval)

lemma preprocess_wisp_full:
  "preprocess_state example_definitions [wisp] [power_action] False = Inr [full_wisp]"
  by (simp add: preprocess_state_def operable_power dropped_wisp process_wisp_full)

lemma preprocess_hurt_wisp_full:
  "preprocess_state example_definitions [hurt_wisp] [] False = Inr [full_hurt_wisp]"
  by (simp add: preprocess_state_def operable_none dropped_hurt_wisp process_hurt_wisp_full)

lemma preprocess_wisp_stripped:
  "preprocess_state example_definitions [wisp] [power_action] True =
     Inr [full_wisp\<lparr>named_tags := Some [(''ENTITY_ID'', ''12''), (''ZONE'', ''1''),
                                        (''HEALTH'', ''1''), (''TAG_READY'', ''1'')]\<rparr>]"
  by (simp add: preprocess_state_def operable_power dropped_wisp process_wisp_stripped)

section \<open>Properties of the difference mode\<close>

lemma mapM_Inr_all:
  "mapM f xs = Inr ys \<Longrightarrow> list_all2 (\<lambda>x y. f x = Inr y) xs ys"
proof (induction xs arbitrary: ys)
  case Nil
  then show ?case by simp
next
  case (Cons x xs)
  from Cons.prems obtain y ys' where y: "f x = Inr y" and r: "mapM f xs = Inr ys'"
    and ys: "ys = y # ys'"
    by (auto simp: bind_Inr_iff)
  from Cons.IH [OF r] y ys show ?case by simp
qed

lemma process_entity_fields:
  assumes "process_entity d operable strip e = Inr e'"
  shows "card_id e' = None \<and> card_name e' = None \<and> tags e' = None"
  using assms by (auto simp: process_entity_def Let_def bind_Inr_iff)

lemma preprocess_state_fields:
  assumes "preprocess_state d state option strip = Inr out" and "e' \<in> set out"
  shows "card_id e' = None \<and> card_name e' = None \<and> tags e' = None"
proof -
  from assms(1) obtain operable kept where
    m: "mapM (process_entity d operable strip) kept = Inr out"
    by (auto simp: preprocess_state_def bind_Inr_iff)
  from assms(2) obtain i where i: "i < length out" "out ! i = e'"
    by (auto simp: in_set_conv_nth)
  from mapM_Inr_all [OF m] i have "process_entity d operable strip (kept ! i) = Inr e'"
    by (auto simp: list_all2_conv_all_nth)
  then show ?thesis by (rule process_entity_fields)
qed

lemma build_dict_no_tags:
  "tags e = None \<Longrightarrow> build_dict d acc (e # rest) = Inl KeyError"
  by (simp add: entity_id_of_def get_field_def)

lemma calculate_difference_no_tags:
  assumes "\<forall>e \<in> set s. tags e = None" "\<forall>e \<in> set s'. tags e = None" "s \<noteq> [] \<or> s' \<noteq> []"
  shows "calculate_difference d s s' = Inl KeyError"
proof (cases s)
  case (Cons e rest)
  with assms(1) have "tags e = None" by simp
  then have "build_dict d [] s = Inl KeyError"
    unfolding Cons by (rule build_dict_no_tags)
  then show ?thesis by (simp add: calculate_difference_def)
next
  case Nil
  with assms(3) obtain e rest where s': "s' = e # rest" by (cases s') auto
  with assms(2) have "tags e = None" by simp
  then have "build_dict d [] s' = Inl KeyError"
    unfolding s' by (rule build_dict_no_tags)
  then show ?thesis by (simp add: Nil calculate_difference_def)
qed

lemma difference_raises_unless_empty:
  assumes "preprocess_state d (t_state tr) (t_option tr) True = Inr stripped"
    and "preprocess_state d (t_next_state tr) (t_next_option tr) False = Inr full_next"
    and "preprocess_state d (t_state tr) (t_option tr) False = Inr full"
    and "full \<noteq> [] \<or> full_next \<noteq> []"
  shows "stripped_next_state d True tr = Inl KeyError"
proof -
  have 1: "\<forall>e \<in> set full. tags e = None"
    using preprocess_state_fields [OF assms(3)] by blast
  have 2: "\<forall>e \<in> set full_next. tags e = None"
    using preprocess_state_fields [OF assms(2)] by blast
  have "calculate_difference d full full_next = Inl KeyError"
    using 1 2 assms(4) by (rule calculate_difference_no_tags)
  then show ?thesis
    by (simp add: stripped_next_state_def assms(1,2,3))
qed

text \<open>
  Claim C2 at a transition whose state and next state each hold one entity that
  \<^verbatim>\<open>preprocess_state\<close> keeps. With \<^verbatim>\<open>difference=True\<close> both states are preprocessed
  without stripping; the entities that come back have no \<^verbatim>\<open>tags\<close> key, because
  \<^verbatim>\<open>preprocess_state\<close> ends with \<^verbatim>\<open>entity.pop("tags", None)\<close>, and the first lookup
  \<^verbatim>\<open>entity["tags"]\<close> of \<^verbatim>\<open>calculate_difference\<close> raises KeyError. No difference is
  returned. By \<open>difference_raises_unless_empty\<close> this happens for every transition in
  which an entity is kept.
\<close>

theorem difference_mode_raises_key_error:
  "preprocess_state example_definitions (t_state wisp_transition) (t_option wisp_transition)
     False = Inr [full_wisp]
   \<and> preprocess_state example_definitions (t_next_state wisp_transition)
       (t_next_option wisp_transition) False = Inr [full_hurt_wisp]
   \<and> tags full_wisp = None \<and> tags full_hurt_wisp = None
   \<and> calculate_difference example_definitions [full_wisp] [full_hurt_wisp] = Inl KeyError
   \<and> stripped_next_state example_definitions True wisp_transition = Inl KeyError"
proof -
  have s: "preprocess_state example_definitions (t_state wisp_transition)
      (t_option wisp_transition) False = Inr [full_wisp]"
    by (simp add: wisp_transition_def preprocess_wisp_full)
  have n: "preprocess_state example_definitions (t_next_state wisp_transition)
      (t_next_option wisp_transition) False = Inr [full_hurt_wisp]"
    by (simp add: wisp_transition_def preprocess_hurt_wisp_full)
  have t: "preprocess_state example_definitions (t_state wisp_transition)
      (t_option wisp_transition) True =
     Inr [full_wisp\<lparr>named_tags := Some [(''ENTITY_ID'', ''12''), (''ZONE'', ''1''),
                                        (''HEALTH'', ''1''), (''TAG_READY'', ''1'')]\<rparr>]"
    by (simp add: wisp_transition_def preprocess_wisp_stripped)
  have f: "tags full_wisp = None \<and> tags full_hurt_wisp = None"
    by (simp add: full_wisp_def full_hurt_wisp_def)
  have c: "calculate_difference example_definitions [full_wisp] [full_hurt_wisp] = Inl KeyError"
    by (rule calculate_difference_no_tags) (simp_all add: f)
  have "stripped_next_state example_definitions True wisp_transition = Inl KeyError"
    by (rule difference_raises_unless_empty [OF t n s]) simp
  with s n f c show ?thesis by blast
qed

section \<open>Properties of \<^verbatim>\<open>preprocess_state\<close>\<close>

text \<open>
  The list comprehension: when no condition raises, the entities kept are those for
  which the condition under \<^verbatim>\<open>not\<close> is false, in their order; and for an entity whose
  three text fields are strings the condition is what the fields say.
\<close>

lemma select_entities_filter:
  "select_entities d state = Inr kept \<Longrightarrow>
   kept = filter (\<lambda>e. dropped d e = Inr False) state \<and>
   (\<forall>e \<in> set state. \<exists>b. dropped d e = Inr b)"
proof (induction state arbitrary: kept)
  case Nil
  then show ?case by simp
next
  case (Cons e rest)
  from Cons.prems obtain b kept' where b: "dropped d e = Inr b"
    and r: "select_entities d rest = Inr kept'"
    and k: "kept = (if b then kept' else e # kept')"
    by (auto simp: bind_Inr_iff)
  from Cons.IH [OF r] b k show ?case by auto
qed

lemma dropped_well_typed:
  assumes "card_name e = Some (PyStr name)" "card_description e = Some (PyStr description)"
    "card_id e = Some (PyStr cid)" "tags e = Some t"
    "has_key (str_int (GAME_TAG_ZONE d)) t \<Longrightarrow>
       bind (dict_get t (str_int (GAME_TAG_ZONE d))) int_str = Inr z"
  shows "dropped d e =
    Inr (name = [] \<or> description = [] \<or> cid = [] \<or>
         (has_key (str_int (GAME_TAG_ZONE d)) t \<and> z \<notin> set (zone d)))"
proof (cases "has_key (str_int (GAME_TAG_ZONE d)) t")
  case False
  then show ?thesis by (simp add: dropped_def assms(1-4) get_field_def)
next
  case True
  from assms(5) [OF True] obtain v where
    "dict_get t (str_int (GAME_TAG_ZONE d)) = Inr v" "int_str v = Inr z"
    by (auto simp: bind_Inr_iff)
  with True show ?thesis by (simp add: dropped_def assms(1-4) get_field_def)
qed

text \<open>
  Claim C5 at an entity whose \<^verbatim>\<open>card_id\<close> is \<^verbatim>\<open>None\<close>. The condition evaluates
  \<^verbatim>\<open>len(entity["card_id"]) == 0\<close> before \<^verbatim>\<open>entity["card_id"] is None\<close>, so the
  \<^verbatim>\<open>len\<close> of \<^verbatim>\<open>None\<close> raises TypeError: the entity is not removed, the whole call
  fails and nothing is kept.
\<close>

theorem null_card_id_raises:
  "card_id null_id_wisp = Some PyNone
   \<and> dropped example_definitions null_id_wisp = Inl TypeError
   \<and> preprocess_state example_definitions [null_id_wisp, coin] [] True = Inl TypeError"
proof -
  have c: "card_id null_id_wisp = Some PyNone" by (simp add: null_id_wisp_def)
  have d: "dropped example_definitions null_id_wisp = Inl TypeError"
    by (simp add: dropped_def null_id_wisp_def wisp_def get_field_def)
  have "preprocess_state example_definitions [null_id_wisp, coin] [] True = Inl TypeError"
    by (simp add: preprocess_state_def operable_none d)
  with c d show ?thesis by blast
qed

section \<open>\<^verbatim>\<open>int(str(n))\<close> is \<open>n\<close>\<close>

lemma digit_char: "k < 10 \<Longrightarrow> is_digit (char_of (48 + k)) \<and> digit_val (char_of (48 + k)) = k"
  for k :: nat
  by (simp add: is_digit_def digit_val_def)

lemma str_nat_digits: "list_all is_digit (str_nat n) \<and> str_nat n \<noteq> []"
proof (induction n rule: str_nat.induct)
  case (1 n)
  show ?case
  proof (cases "n < 10")
    case True
    then show ?thesis by (subst (1 2) str_nat.simps) (simp add: digit_char)
  next
    case False
    have "n mod 10 < 10" by simp
    then have "is_digit (char_of (48 + n mod 10))" using digit_char by blast
    with False 1 show ?thesis by (subst (1 2) str_nat.simps) simp
  qed
qed

lemma digits_value_snoc:
  "digits_value acc (ds @ [c]) = 10 * digits_value acc ds + digit_val c"
  by (simp add: digits_value_def)

lemma digits_value_str_nat: "digits_value 0 (str_nat n) = n"
proof (induction n rule: str_nat.induct)
  case (1 n)
  show ?case
  proof (cases "n < 10")
    case True
    then show ?thesis
      by (subst str_nat.simps) (simp add: digits_value_def digit_char)
  next
    case False
    have "n mod 10 < 10" by simp
    then have "digit_val (char_of (48 + n mod 10)) = n mod 10" using digit_char by blast
    with False 1 show ?thesis
      by (subst str_nat.simps) (simp add: digits_value_snoc)
  qed
qed

lemma parse_digits_digits:
  "list_all is_digit ds \<Longrightarrow> parse_digits acc ds = Some (digits_value acc ds)"
  by (induction acc ds rule: parse_digits.induct) (simp_all add: digits_value_def)

lemma parse_unsigned_str_nat: "parse_unsigned (str_nat n) = Some n"
proof -
  obtain c cs where s: "str_nat n = c # cs"
    using str_nat_digits [of n] by (cases "str_nat n") auto
  have d: "is_digit c" "list_all is_digit cs"
    using str_nat_digits [of n] unfolding s by simp_all
  have "digits_value (digit_val c) cs = digits_value 0 (c # cs)"
    by (simp add: digits_value_def)
  also have "\<dots> = n" using digits_value_str_nat [of n] by (simp add: s)
  finally show ?thesis
    by (simp add: parse_unsigned_def s d parse_digits_digits)
qed

lemma digit_not_space: "is_digit c \<Longrightarrow> \<not> is_space c"
  by (auto simp: is_digit_def is_space_def)

lemma py_strip_unchanged:
  assumes "s \<noteq> []" "\<not> is_space (hd s)" "\<not> is_space (last s)"
  shows "py_strip s = s"
proof -
  from assms(1,2) have a: "dropWhile is_space s = s" by (cases s) auto
  from assms(1,3) have "dropWhile is_space (rev s) = rev s"
    by (cases "rev s") (auto simp: last_rev [symmetric] simp del: last_rev)
  with a show ?thesis by (simp add: py_strip_def)
qed

lemma minus_not_space: "\<not> is_space CHR ''-''"
  by (simp add: is_space_def)

lemma digit_not_sign: "is_digit c \<Longrightarrow> c \<noteq> CHR ''-'' \<and> c \<noteq> CHR ''+''"
  by (auto simp: is_digit_def)

lemma int_of_string_str_int: "int_of_string (str_int i) = Some i"
proof -
  obtain c cs where s: "str_nat (nat \<bar>i\<bar>) = c # cs"
    using str_nat_digits [of "nat \<bar>i\<bar>"] by (cases "str_nat (nat \<bar>i\<bar>)") auto
  have d: "is_digit c" "list_all is_digit cs"
    using str_nat_digits [of "nat \<bar>i\<bar>"] unfolding s by simp_all
  have l: "is_digit (last (c # cs))"
    using d by (cases cs rule: rev_cases) (simp_all add: list_all_iff)
  have p: "parse_unsigned (c # cs) = Some (nat \<bar>i\<bar>)"
    using parse_unsigned_str_nat [of "nat \<bar>i\<bar>"] by (simp add: s)
  show ?thesis
  proof (cases "i < 0")
    case True
    then have e: "str_int i = CHR ''-'' # c # cs"
      using s by (simp add: str_int_def abs_if)
    have "py_strip (CHR ''-'' # c # cs) = CHR ''-'' # c # cs"
      using l by (intro py_strip_unchanged) (simp_all add: minus_not_space digit_not_space)
    then show ?thesis using True p by (simp add: int_of_string_def e)
  next
    case False
    then have e: "str_int i = c # cs"
      using s by (simp add: str_int_def abs_if)
    have "py_strip (c # cs) = c # cs"
      using l d by (intro py_strip_unchanged) (simp_all add: digit_not_space)
    then show ?thesis
      using False p digit_not_sign [OF d(1)] by (simp add: int_of_string_def e)
  qed
qed

lemma int_str_str_int: "int_str (str_int i) = Inr i"
  by (simp add: int_str_def int_of_string_str_int)

lemma schema_key_scope: "int_str k = Inr n \<Longrightarrow> n \<in> set (scope d) \<Longrightarrow> schema_key d k"
  by (simp add: schema_key_def)

lemma schema_key_ready: "schema_key d (str_int (TAG_READY d))"
  by (simp add: schema_key_def)

lemma map_filter_member:
  "x \<in> set xs \<Longrightarrow> f x = Some y \<Longrightarrow> y \<in> set (List.map_filter f xs)"
  by (force simp: List.map_filter_def)

lemma schema_key_name:
  assumes "schema_key d k" "int_str k = Inr n" "tag_map d n = Some name"
  shows "name \<in> scope_names d"
proof -
  from assms(1,2) have "n \<in> set (scope d) \<or> n = TAG_READY d"
    by (auto simp: schema_key_def int_str_str_int)
  then have "n \<in> set (scope d @ [TAG_READY d])" by auto
  then show ?thesis
    unfolding scope_names_def using assms(3) by (rule map_filter_member)
qed

lemma tag_step_keys:
  assumes "tag_step d operable True tag cur = Inr cur'" "k \<in> fst ` set cur'"
  shows "(k \<in> fst ` set cur \<and> k \<noteq> tag) \<or> schema_key d k"
proof -
  from assms(1) obtain ti where ti: "int_str tag = Inr ti"
    by (auto simp: tag_step_def bind_Inr_iff)
  show ?thesis
  proof (cases "ti \<in> set (scope d)")
    case False
    with assms ti have "cur' = AList.delete tag cur" by (simp add: tag_step_def)
    with assms(2) have "k \<in> fst ` set (AList.delete tag cur)" by simp
    then have "k \<in> fst ` set cur \<and> k \<noteq> tag"
      using AList.dom_delete_subset [of tag cur] AList.delete_notin_dom [of tag cur] by auto
    then show ?thesis ..
  next
    case True
    then have tag: "schema_key d tag" using ti by (rule schema_key_scope [rotated])
    from assms(1) ti True have
      "cur' = cur \<or> cur' = AList.update (str_int (TAG_READY d)) ''1'' cur"
      by (auto simp: tag_step_def bind_Inr_iff split: if_splits)
    then have "fst ` set cur' \<subseteq> {str_int (TAG_READY d)} \<union> fst ` set cur"
      using AList.dom_update [of "str_int (TAG_READY d)" "''1''" cur] by auto
    with assms(2) have "k \<in> fst ` set cur \<or> k = str_int (TAG_READY d)"
      by blast
    with tag schema_key_ready show ?thesis by (cases "k = tag") auto
  qed
qed

lemma tag_loop_keys:
  assumes "tag_loop d operable True keys cur = Inr cur'" "k \<in> fst ` set cur'"
  shows "(k \<in> fst ` set cur \<and> k \<notin> set keys) \<or> schema_key d k"
  using assms
proof (induction keys arbitrary: cur)
  case Nil
  then show ?case by simp
next
  case (Cons tag rest)
  from Cons.prems(1) obtain mid where s: "tag_step d operable True tag cur = Inr mid"
    and l: "tag_loop d operable True rest mid = Inr cur'"
    by (auto simp: bind_Inr_iff)
  from Cons.IH [OF l Cons.prems(2)]
  show ?case
  proof
    assume "k \<in> fst ` set mid \<and> k \<notin> set rest"
    with tag_step_keys [OF s, of k] show ?thesis by auto
  next
    assume "schema_key d k"
    then show ?thesis ..
  qed
qed

lemma subset_chain: "A \<subseteq> B \<union> N \<Longrightarrow> B \<subseteq> C \<union> N \<Longrightarrow> A \<subseteq> C \<union> N"
  by blast

lemma rename_step_Inr:
  assumes "rename_step d cur tag named = Inr named'"
  shows "\<exists>v ti name. int_str tag = Inr ti \<and> tag_map d ti = Some name \<and>
    named' = AList.update name v named"
proof -
  from assms obtain v where
    1: "bind (int_str tag) (\<lambda>ti. case tag_map d ti of None \<Rightarrow> Inl KeyError
          | Some name \<Rightarrow> Inr (AList.update name v named)) = Inr named'"
    unfolding rename_step_def bind_Inr_iff by blast
  then obtain ti where ti: "int_str tag = Inr ti"
    and 2: "(case tag_map d ti of None \<Rightarrow> Inl KeyError
          | Some name \<Rightarrow> Inr (AList.update name v named)) = Inr named'"
    unfolding bind_Inr_iff by blast
  from 2 obtain name where "tag_map d ti = Some name" "named' = AList.update name v named"
    by (cases "tag_map d ti") auto
  with ti show ?thesis by blast
qed

lemma rename_step_keys:
  assumes "rename_step d cur tag named = Inr named'" "schema_key d tag"
  shows "fst ` set named' \<subseteq> fst ` set named \<union> scope_names d"
proof -
  from rename_step_Inr [OF assms(1)] obtain v ti name where
    ti: "int_str tag = Inr ti" and nm: "tag_map d ti = Some name"
    and n: "named' = AList.update name v named"
    by blast
  have nm': "name \<in> scope_names d" using assms(2) ti nm by (rule schema_key_name)
  have dom: "fst ` set named' = {name} \<union> fst ` set named"
    unfolding n by (rule AList.dom_update)
  show ?thesis unfolding dom using nm' by simp
qed

lemma rename_loop_keys:
  assumes "rename_loop d cur keys named = Inr named'" "\<forall>k \<in> set keys. schema_key d k"
  shows "fst ` set named' \<subseteq> fst ` set named \<union> scope_names d"
  using assms
proof (induction keys arbitrary: named)
  case Nil
  then show ?case by auto
next
  case (Cons tag rest)
  from Cons.prems(1) obtain mid where s: "rename_step d cur tag named = Inr mid"
    and l: "rename_loop d cur rest mid = Inr named'"
    by (auto simp: bind_Inr_iff)
  from Cons.prems(2) have t: "schema_key d tag" and r: "\<forall>k \<in> set rest. schema_key d k"
    by simp_all
  from Cons.IH [OF l r] rename_step_keys [OF s t] show ?case by (rule subset_chain)
qed

lemma process_entity_schema:
  assumes "process_entity d operable True e = Inr e'"
  shows "\<exists>named. named_tags e' = Some named \<and> fst ` set named \<subseteq> scope_names d"
proof -
  from assms obtain t0 t1 named where
    l: "tag_loop d operable True (map fst t0) t0 = Inr t1"
    and r: "rename_loop d t1 (map fst t1) [] = Inr named"
    and e': "named_tags e' = Some named"
    by (auto simp: process_entity_def Let_def bind_Inr_iff)
  have "\<forall>k \<in> set (map fst t1). schema_key d k"
  proof
    fix k assume "k \<in> set (map fst t1)"
    then have k: "k \<in> fst ` set t1" by simp
    from tag_loop_keys [OF l k] show "schema_key d k" by simp
  qed
  from rename_loop_keys [OF r this] have "fst ` set named \<subseteq> scope_names d" by simp
  with e' show ?thesis by simp
qed

text \<open>
  Claim C6. Every entity that \<^verbatim>\<open>preprocess_state\<close> returns with \<^verbatim>\<open>strip=True\<close> has no
  \<^verbatim>\<open>card_id\<close>, \<^verbatim>\<open>card_name\<close> or \<^verbatim>\<open>tags\<close> field, and the keys of its
  \<^verbatim>\<open>named_tags\<close> dictionary are among the names \<^verbatim>\<open>tag_map\<close> gives the twelve tags of
  \<^verbatim>\<open>scope\<close> and TAG_READY.
\<close>

theorem preprocess_state_strip_schema:
  assumes "preprocess_state d state option True = Inr out" and "e \<in> set out"
  shows "card_id e = None \<and> card_name e = None \<and> tags e = None \<and>
    (\<exists>named. named_tags e = Some named \<and> fst ` set named \<subseteq> scope_names d)"
proof -
  from assms(1) obtain operable kept where
    m: "mapM (process_entity d operable True) kept = Inr out"
    by (auto simp: preprocess_state_def bind_Inr_iff)
  from assms(2) obtain i where i: "i < length out" "out ! i = e"
    by (auto simp: in_set_conv_nth)
  from mapM_Inr_all [OF m] i have p: "process_entity d operable True (kept ! i) = Inr e"
    by (auto simp: list_all2_conv_all_nth)
  from process_entity_fields [OF p] process_entity_schema [OF p] show ?thesis by simp
qed

theorem preprocess_state_strip_schema_witness:
  "preprocess_state example_definitions [wisp] [power_action] True = Inr [stripped_wisp]
   \<and> card_id stripped_wisp = None \<and> card_name stripped_wisp = None
   \<and> tags stripped_wisp = None
   \<and> named_tags stripped_wisp =
        Some [(''ENTITY_ID'', ''12''), (''ZONE'', ''1''), (''HEALTH'', ''1''),
              (''TAG_READY'', ''1'')]
   \<and> fst ` set [(''ENTITY_ID'', ''12''), (''ZONE'', ''1''), (''HEALTH'', ''1''),
                  (''TAG_READY'', ''1'' :: string)] \<subseteq> scope_names example_definitions"
proof -
  have p: "preprocess_state example_definitions [wisp] [power_action] True =
      Inr [stripped_wisp]"
    by (simp add: preprocess_wisp_stripped full_wisp_def stripped_wisp_def)
  have n: "named_tags stripped_wisp =
        Some [(''ENTITY_ID'', ''12''), (''ZONE'', ''1''), (''HEALTH'', ''1''),
              (''TAG_READY'', ''1'')]"
    by (simp add: stripped_wisp_def)
  have m: "stripped_wisp \<in> set [stripped_wisp]" by simp
  from preprocess_state_strip_schema [OF p m] n p show ?thesis by simp
qed

end
